theory Spec2Isabelle
  imports Complex_Main
begin

section \<open>Values of the executor package\<close>

text \<open>
  \<^verbatim>\<open>time.Duration\<close> is an \<^verbatim>\<open>int64\<close> count of nanoseconds. Go's \<^verbatim>\<open>int\<close> is taken
  at 64 bits. Both are modelled as \<^typ>\<open>int\<close>; where the source adds or multiplies
  caller-supplied numbers the two's-complement wrap is written out with \<open>wrap64\<close>.
  The loop counter of \<^verbatim>\<open>Execute\<close> is not wrapped: it would take \<open>2^63 - 1\<close> task
  invocations to reach the bound.
\<close>

type_synonym duration = int

definition wrap64 :: "int \<Rightarrow> int" where
  "wrap64 x = (x + 2 ^ 63) mod 2 ^ 64 - 2 ^ 63"

definition Millisecond :: duration where
  "Millisecond = 1000000"

definition Second :: duration where
  "Second = 1000000000"

text \<open>
  A \<^verbatim>\<open>float64\<close> is only stored and handed on by this development; its finite values
  are real numbers. The one float computation of the package,
  \<^verbatim>\<open>time.Duration(float64(b) * math.Pow(m, float64(n)))\<close>, is IEEE-754 arithmetic of the
  Go runtime and is taken as a parameter of type \<open>float_scale\<close> (arguments \<open>b\<close>, \<open>m\<close>, \<open>n\<close>).
\<close>

type_synonym float64 = real

type_synonym float_scale = "duration \<Rightarrow> float64 \<Rightarrow> int \<Rightarrow> duration"

text \<open>
  A Go \<^verbatim>\<open>error\<close> is an interface value: \<open>None\<close> is \<^verbatim>\<open>nil\<close>. The two errors of package
  \<^verbatim>\<open>context\<close> are kept apart from the errors a task makes with \<^verbatim>\<open>errors.New\<close>.
\<close>

datatype error = Canceled | DeadlineExceeded | ErrorString string

text \<open>\<^verbatim>\<open>type Result[T any] struct { Value T; Error error; Attempt int }\<close>\<close>

record 'v Result =
  Value :: 'v
  Error :: "error option"
  Attempt :: int

section \<open>Retry strategies\<close>

text \<open>
  \<^verbatim>\<open>RetryStrategy\<close> is an interface of three methods; an interface value is modelled by
  its method table. The methods of the five implementations below read their receiver
  only, so a table of pure functions represents them; the functions a caller hands to
  the conditional strategy are taken to be pure as well.
\<close>

record RetryStrategy =
  ShouldRetry :: "int \<Rightarrow> error option \<Rightarrow> bool"
  GetDelay :: "int \<Rightarrow> duration"
  GetMaxAttempts :: int

subsection \<open>ExponentialBackoffStrategy\<close>

record ExponentialBackoffStrategy =
  eb_maxAttempts :: int
  eb_baseDelay :: duration
  eb_multiplier :: float64
  eb_maxDelay :: duration

definition NewExponentialBackoffStrategy ::
    "int \<Rightarrow> duration \<Rightarrow> float64 \<Rightarrow> ExponentialBackoffStrategy" where
  "NewExponentialBackoffStrategy maxAttempts baseDelay multiplier =
     \<lparr>eb_maxAttempts = maxAttempts, eb_baseDelay = baseDelay,
      eb_multiplier = multiplier, eb_maxDelay = 30 * Second\<rparr>"

definition ExponentialBackoff_ShouldRetry ::
    "ExponentialBackoffStrategy \<Rightarrow> int \<Rightarrow> error option \<Rightarrow> bool" where
  "ExponentialBackoff_ShouldRetry e attempt err =
     (if attempt \<ge> eb_maxAttempts e then False else err \<noteq> None)"

definition ExponentialBackoff_GetDelay ::
    "float_scale \<Rightarrow> ExponentialBackoffStrategy \<Rightarrow> int \<Rightarrow> duration" where
  "ExponentialBackoff_GetDelay fscale e attempt =
     (let delay = fscale (eb_baseDelay e) (eb_multiplier e) (wrap64 (attempt - 1))
      in if delay > eb_maxDelay e then eb_maxDelay e else delay)"

definition ExponentialBackoff_GetMaxAttempts :: "ExponentialBackoffStrategy \<Rightarrow> int" where
  "ExponentialBackoff_GetMaxAttempts e = eb_maxAttempts e"

definition ExponentialBackoff_RetryStrategy ::
    "float_scale \<Rightarrow> ExponentialBackoffStrategy \<Rightarrow> RetryStrategy" where
  "ExponentialBackoff_RetryStrategy fscale e =
     \<lparr>ShouldRetry = ExponentialBackoff_ShouldRetry e,
      GetDelay = ExponentialBackoff_GetDelay fscale e,
      GetMaxAttempts = ExponentialBackoff_GetMaxAttempts e\<rparr>"

text \<open>
  \<^verbatim>\<open>WithMaxDelay\<close> has a pointer receiver, assigns through it and returns it. Strategy
  objects therefore live in a store, addressed by \<open>ref\<close>; the call fails (a nil
  dereference panics) when the receiver points to no object.
\<close>

type_synonym ref = nat

type_synonym store = "ref \<rightharpoonup> ExponentialBackoffStrategy"

definition WithMaxDelay :: "ref \<Rightarrow> duration \<Rightarrow> store \<Rightarrow> (ref \<times> store) option" where
  "WithMaxDelay e maxDelay h =
     (case h e of
        None \<Rightarrow> None
      | Some s \<Rightarrow> Some (e, h(e \<mapsto> s\<lparr>eb_maxDelay := maxDelay\<rparr>)))"

subsection \<open>LinearBackoffStrategy\<close>

record LinearBackoffStrategy =
  lb_maxAttempts :: int
  lb_baseDelay :: duration
  lb_increment :: duration

definition NewLinearBackoffStrategy ::
    "int \<Rightarrow> duration \<Rightarrow> duration \<Rightarrow> LinearBackoffStrategy" where
  "NewLinearBackoffStrategy maxAttempts baseDelay increment =
     \<lparr>lb_maxAttempts = maxAttempts, lb_baseDelay = baseDelay, lb_increment = increment\<rparr>"

definition LinearBackoff_ShouldRetry ::
    "LinearBackoffStrategy \<Rightarrow> int \<Rightarrow> error option \<Rightarrow> bool" where
  "LinearBackoff_ShouldRetry l attempt err =
     (if attempt \<ge> lb_maxAttempts l then False else err \<noteq> None)"

definition LinearBackoff_GetDelay :: "LinearBackoffStrategy \<Rightarrow> int \<Rightarrow> duration" where
  "LinearBackoff_GetDelay l attempt =
     wrap64 (lb_baseDelay l + wrap64 (wrap64 (attempt - 1) * lb_increment l))"

definition LinearBackoff_GetMaxAttempts :: "LinearBackoffStrategy \<Rightarrow> int" where
  "LinearBackoff_GetMaxAttempts l = lb_maxAttempts l"

definition LinearBackoff_RetryStrategy :: "LinearBackoffStrategy \<Rightarrow> RetryStrategy" where
  "LinearBackoff_RetryStrategy l =
     \<lparr>ShouldRetry = LinearBackoff_ShouldRetry l,
      GetDelay = LinearBackoff_GetDelay l,
      GetMaxAttempts = LinearBackoff_GetMaxAttempts l\<rparr>"

subsection \<open>FixedDelayStrategy\<close>

record FixedDelayStrategy =
  fd_maxAttempts :: int
  fd_delay :: duration

definition NewFixedDelayStrategy :: "int \<Rightarrow> duration \<Rightarrow> FixedDelayStrategy" where
  "NewFixedDelayStrategy maxAttempts delay = \<lparr>fd_maxAttempts = maxAttempts, fd_delay = delay\<rparr>"

definition FixedDelay_ShouldRetry :: "FixedDelayStrategy \<Rightarrow> int \<Rightarrow> error option \<Rightarrow> bool" where
  "FixedDelay_ShouldRetry f attempt err =
     (if attempt \<ge> fd_maxAttempts f then False else err \<noteq> None)"

definition FixedDelay_GetDelay :: "FixedDelayStrategy \<Rightarrow> int \<Rightarrow> duration" where
  "FixedDelay_GetDelay f attempt = fd_delay f"

definition FixedDelay_GetMaxAttempts :: "FixedDelayStrategy \<Rightarrow> int" where
  "FixedDelay_GetMaxAttempts f = fd_maxAttempts f"

definition FixedDelay_RetryStrategy :: "FixedDelayStrategy \<Rightarrow> RetryStrategy" where
  "FixedDelay_RetryStrategy f =
     \<lparr>ShouldRetry = FixedDelay_ShouldRetry f,
      GetDelay = FixedDelay_GetDelay f,
      GetMaxAttempts = FixedDelay_GetMaxAttempts f\<rparr>"

subsection \<open>NoRetryStrategy\<close>

text \<open>\<^verbatim>\<open>type NoRetryStrategy struct{}\<close> has no field; its methods are constants.\<close>

definition NoRetry_ShouldRetry :: "int \<Rightarrow> error option \<Rightarrow> bool" where
  "NoRetry_ShouldRetry attempt err = False"

definition NoRetry_GetDelay :: "int \<Rightarrow> duration" where
  "NoRetry_GetDelay attempt = 0"

definition NoRetry_GetMaxAttempts :: int where
  "NoRetry_GetMaxAttempts = 1"

definition NewNoRetryStrategy :: RetryStrategy where
  "NewNoRetryStrategy =
     \<lparr>ShouldRetry = NoRetry_ShouldRetry,
      GetDelay = NoRetry_GetDelay,
      GetMaxAttempts = NoRetry_GetMaxAttempts\<rparr>"

subsection \<open>ConditionalRetryStrategy\<close>

text \<open>The two function fields may be \<^verbatim>\<open>nil\<close>: \<open>None\<close>.\<close>

record ConditionalRetryStrategy =
  cr_maxAttempts :: int
  cr_baseDelay :: duration
  cr_shouldRetryFn :: "(int \<Rightarrow> error option \<Rightarrow> bool) option"
  cr_getDelayFn :: "(int \<Rightarrow> duration) option"

definition NewConditionalRetryStrategy ::
    "int \<Rightarrow> duration \<Rightarrow> (int \<Rightarrow> error option \<Rightarrow> bool) option \<Rightarrow> (int \<Rightarrow> duration) option
      \<Rightarrow> ConditionalRetryStrategy" where
  "NewConditionalRetryStrategy maxAttempts baseDelay shouldRetryFn getDelayFn =
     \<lparr>cr_maxAttempts = maxAttempts, cr_baseDelay = baseDelay,
      cr_shouldRetryFn = shouldRetryFn, cr_getDelayFn = getDelayFn\<rparr>"

definition ConditionalRetry_ShouldRetry ::
    "ConditionalRetryStrategy \<Rightarrow> int \<Rightarrow> error option \<Rightarrow> bool" where
  "ConditionalRetry_ShouldRetry c attempt err =
     (if attempt \<ge> cr_maxAttempts c then False
      else case cr_shouldRetryFn c of
             Some fn \<Rightarrow> fn attempt err
           | None \<Rightarrow> err \<noteq> None)"

definition ConditionalRetry_GetDelay :: "ConditionalRetryStrategy \<Rightarrow> int \<Rightarrow> duration" where
  "ConditionalRetry_GetDelay c attempt =
     (case cr_getDelayFn c of
        Some fn \<Rightarrow> fn attempt
      | None \<Rightarrow> cr_baseDelay c)"

definition ConditionalRetry_GetMaxAttempts :: "ConditionalRetryStrategy \<Rightarrow> int" where
  "ConditionalRetry_GetMaxAttempts c = cr_maxAttempts c"

definition ConditionalRetry_RetryStrategy :: "ConditionalRetryStrategy \<Rightarrow> RetryStrategy" where
  "ConditionalRetry_RetryStrategy c =
     \<lparr>ShouldRetry = ConditionalRetry_ShouldRetry c,
      GetDelay = ConditionalRetry_GetDelay c,
      GetMaxAttempts = ConditionalRetry_GetMaxAttempts c\<rparr>"

section \<open>Timeout strategies\<close>

record TimeoutStrategy =
  GetTimeout :: "int \<Rightarrow> duration"

record FixedTimeoutStrategy =
  ft_timeout :: duration

definition NewFixedTimeoutStrategy :: "duration \<Rightarrow> FixedTimeoutStrategy" where
  "NewFixedTimeoutStrategy timeout = \<lparr>ft_timeout = timeout\<rparr>"

definition FixedTimeout_GetTimeout :: "FixedTimeoutStrategy \<Rightarrow> int \<Rightarrow> duration" where
  "FixedTimeout_GetTimeout f attempt = ft_timeout f"

definition FixedTimeout_TimeoutStrategy :: "FixedTimeoutStrategy \<Rightarrow> TimeoutStrategy" where
  "FixedTimeout_TimeoutStrategy f = \<lparr>GetTimeout = FixedTimeout_GetTimeout f\<rparr>"

section \<open>The executor\<close>

text \<open>
  A context is the caller's parent (tagged by a value of the caller's choice) or a
  child derived by \<^verbatim>\<open>context.WithTimeout\<close>.
\<close>

datatype 'c Context = Ctx 'c | WithTimeout "'c Context" duration

text \<open>
  Everything outside the engine is a world of type \<open>'w\<close>: the variables the task and
  the callbacks close over, the clock, the state of the parent context. A task and a
  callback are world transformers.
  \<^verbatim>\<open>type Task[T any] func(ctx context.Context) (T, error)\<close>
\<close>

type_synonym ('c, 'w, 'v) Task = "'c Context \<Rightarrow> 'w \<Rightarrow> ('v \<times> error option) \<times> 'w"

text \<open>
  The Go runtime decides the \<^verbatim>\<open>select\<close> between \<^verbatim>\<open>ctx.Done()\<close> and
  \<^verbatim>\<open>time.After(delay)\<close>: \<open>select_done\<close> is \<open>True\<close> when the \<^verbatim>\<open>ctx.Done()\<close> case is
  taken, and gives the world after the wait. \<open>ctx_Err\<close> is \<^verbatim>\<open>ctx.Err()\<close>.
\<close>

record ('c, 'w) runtime =
  select_done :: "'c Context \<Rightarrow> duration \<Rightarrow> 'w \<Rightarrow> bool \<times> 'w"
  ctx_Err :: "'c Context \<Rightarrow> 'w \<Rightarrow> error option"

text \<open>
  The contract of \<^verbatim>\<open>context.Context\<close>: once \<^verbatim>\<open>Done\<close> is closed, \<^verbatim>\<open>Err\<close> is not nil.
\<close>

definition context_contract :: "('c, 'w) runtime \<Rightarrow> bool" where
  "context_contract rt =
     (\<forall>ctx delay w w'. select_done rt ctx delay w = (True, w') \<longrightarrow> ctx_Err rt ctx w' \<noteq> None)"

record 'w Executor =
  retryStrategy :: RetryStrategy
  timeoutStrategy :: TimeoutStrategy
  onRetry :: "(int \<Rightarrow> error option \<Rightarrow> duration \<Rightarrow> 'w \<Rightarrow> 'w) option"
  onTimeout :: "(int \<Rightarrow> duration \<Rightarrow> 'w \<Rightarrow> 'w) option"

type_synonym 'w ExecutorOption = "'w Executor \<Rightarrow> 'w Executor"

definition NewExecutor :: "float_scale \<Rightarrow> 'w ExecutorOption list \<Rightarrow> 'w Executor" where
  "NewExecutor fscale options =
     foldl (\<lambda>executor opt. opt executor)
       \<lparr>retryStrategy =
          ExponentialBackoff_RetryStrategy fscale (NewExponentialBackoffStrategy 3 Second 2),
        timeoutStrategy = FixedTimeout_TimeoutStrategy (NewFixedTimeoutStrategy (30 * Second)),
        onRetry = None, onTimeout = None\<rparr>
       options"

definition WithRetryStrategy :: "RetryStrategy \<Rightarrow> 'w ExecutorOption" where
  "WithRetryStrategy strategy = (\<lambda>e. e\<lparr>retryStrategy := strategy\<rparr>)"

definition WithTimeoutStrategy :: "TimeoutStrategy \<Rightarrow> 'w ExecutorOption" where
  "WithTimeoutStrategy strategy = (\<lambda>e. e\<lparr>timeoutStrategy := strategy\<rparr>)"

definition WithRetryCallback ::
    "(int \<Rightarrow> error option \<Rightarrow> duration \<Rightarrow> 'w \<Rightarrow> 'w) \<Rightarrow> 'w ExecutorOption" where
  "WithRetryCallback callback = (\<lambda>e. e\<lparr>onRetry := Some callback\<rparr>)"

definition WithTimeoutCallback :: "(int \<Rightarrow> duration \<Rightarrow> 'w \<Rightarrow> 'w) \<Rightarrow> 'w ExecutorOption" where
  "WithTimeoutCallback callback = (\<lambda>e. e\<lparr>onTimeout := Some callback\<rparr>)"

text \<open>
  What a run of \<^verbatim>\<open>Execute\<close> does to its surroundings is recorded, in order, as a list
  of events: each call of a callback, of the task (with what it returned), of
  \<^verbatim>\<open>ShouldRetry\<close> and \<^verbatim>\<open>GetDelay\<close>, and each wait (with the attempt it follows, the
  delay, and whether \<^verbatim>\<open>ctx.Done()\<close> ended it).
\<close>

datatype 'v event =
    OnTimeoutCall int duration
  | TaskRun int 'v "error option"
  | ShouldRetryCall int "error option"
  | GetDelayCall int
  | OnRetryCall int "error option" duration
  | Wait int duration bool

text \<open>
  One pass through the body of the \<^verbatim>\<open>for\<close> loop ends in a \<^verbatim>\<open>return\<close>, in the
  \<^verbatim>\<open>break\<close>, or at the end of the body; each carries \<^verbatim>\<open>lastResult\<close>. The call of
  \<^verbatim>\<open>cancel()\<close> after the task releases the timer of the derived context and does nothing
  else the engine can see.
\<close>

datatype 'v flow =
    Returned "'v Result" "error option"
  | Break "'v Result"
  | Continue "'v Result"

definition Execute_body ::
    "('c, 'w) runtime \<Rightarrow> 'w Executor \<Rightarrow> 'c Context \<Rightarrow> ('c, 'w, 'v) Task \<Rightarrow> int \<Rightarrow> int \<Rightarrow> 'w
      \<Rightarrow> 'v flow \<times> 'w \<times> 'v event list" where
  "Execute_body rt executor ctx task maxAttempts attempt w =
     (let timeout = GetTimeout (timeoutStrategy executor) attempt;
          taskCtx = WithTimeout ctx timeout;
          (w1, tr1) = (case onTimeout executor of
                         None \<Rightarrow> (w, [])
                       | Some cb \<Rightarrow> (cb attempt timeout w, [OnTimeoutCall attempt timeout]));
          ((v, err), w2) = task taskCtx w1;
          tr2 = tr1 @ [TaskRun attempt v err];
          lastResult = \<lparr>Value = v, Error = err, Attempt = attempt\<rparr>
      in if err = None then (Returned lastResult None, w2, tr2)
         else if \<not> ShouldRetry (retryStrategy executor) attempt err
           then (Break lastResult, w2, tr2 @ [ShouldRetryCall attempt err])
         else if attempt < maxAttempts then
           (let delay = GetDelay (retryStrategy executor) attempt;
                (w3, tr3) = (case onRetry executor of
                               None \<Rightarrow> (w2, [])
                             | Some cb \<Rightarrow> (cb attempt err delay w2, [OnRetryCall attempt err delay]));
                (cancelled, w4) = select_done rt ctx delay w3;
                tr4 = tr2 @ [ShouldRetryCall attempt err, GetDelayCall attempt] @ tr3
                        @ [Wait attempt delay cancelled]
            in if cancelled
               then (Returned (lastResult\<lparr>Error := ctx_Err rt ctx w4\<rparr>) (ctx_Err rt ctx w4), w4, tr4)
               else (Continue lastResult, w4, tr4))
         else (Continue lastResult, w2, tr2 @ [ShouldRetryCall attempt err]))"

text \<open>
  The loop \<^verbatim>\<open>for attempt := 1; attempt <= maxAttempts; attempt++\<close>, from any value of
  the counter, and the \<^verbatim>\<open>return &lastResult, lastResult.Error\<close> after it.
\<close>

function Execute_loop ::
    "('c, 'w) runtime \<Rightarrow> 'w Executor \<Rightarrow> 'c Context \<Rightarrow> ('c, 'w, 'v) Task \<Rightarrow> int \<Rightarrow> int
      \<Rightarrow> 'v Result \<Rightarrow> 'w \<Rightarrow> ('v Result \<times> error option) \<times> 'w \<times> 'v event list" where
  "Execute_loop rt executor ctx task maxAttempts attempt lastResult w =
     (if attempt \<le> maxAttempts then
        (case Execute_body rt executor ctx task maxAttempts attempt w of
           (Returned r e, w', tr) \<Rightarrow> ((r, e), w', tr)
         | (Break r, w', tr) \<Rightarrow> ((r, Error r), w', tr)
         | (Continue r, w', tr) \<Rightarrow>
             (case Execute_loop rt executor ctx task maxAttempts (attempt + 1) r w' of
                (out, w'', tr') \<Rightarrow> (out, w'', tr @ tr')))
      else ((lastResult, Error lastResult), w, []))"
  by pat_completeness auto
termination
  by (relation "measure (\<lambda>(rt, executor, ctx, task, maxAttempts, attempt, lastResult, w).
        nat (maxAttempts + 1 - attempt))") auto

text \<open>
  \<^verbatim>\<open>var lastResult Result[T]\<close> starts as the zero value of the struct; \<open>zero\<close> is the
  zero value of the type parameter \<^verbatim>\<open>T\<close>.
\<close>

definition Execute ::
    "('c, 'w) runtime \<Rightarrow> 'v \<Rightarrow> 'w Executor \<Rightarrow> 'c Context \<Rightarrow> ('c, 'w, 'v) Task \<Rightarrow> 'w
      \<Rightarrow> ('v Result \<times> error option) \<times> 'w \<times> 'v event list" where
  "Execute rt zero executor ctx task w =
     (let lastResult = \<lparr>Value = zero, Error = None, Attempt = 0\<rparr>;
          maxAttempts = GetMaxAttempts (retryStrategy executor)
      in Execute_loop rt executor ctx task maxAttempts 1 lastResult w)"

definition ExecuteSimple ::
    "('c, 'w) runtime \<Rightarrow> 'v \<Rightarrow> 'w Executor \<Rightarrow> 'c Context \<Rightarrow> ('c, 'w, 'v) Task \<Rightarrow> 'w
      \<Rightarrow> ('v \<times> error option) \<times> 'w \<times> 'v event list" where
  "ExecuteSimple rt zero executor ctx task w =
     (case Execute rt zero executor ctx task w of
        ((result, err), w', tr) \<Rightarrow>
          if err \<noteq> None then ((zero, err), w', tr)
          else ((Value result, Error result), w', tr))"

definition ExecuteWithTimeout ::
    "('c, 'w) runtime \<Rightarrow> float_scale \<Rightarrow> 'v \<Rightarrow> 'c Context \<Rightarrow> duration \<Rightarrow> ('c, 'w, 'v) Task \<Rightarrow> 'w
      \<Rightarrow> ('v \<times> error option) \<times> 'w \<times> 'v event list" where
  "ExecuteWithTimeout rt fscale zero ctx timeout task w =
     (let executor = NewExecutor fscale
            [WithRetryStrategy NewNoRetryStrategy,
             WithTimeoutStrategy (FixedTimeout_TimeoutStrategy (NewFixedTimeoutStrategy timeout))]
      in ExecuteSimple rt zero executor ctx task w)"

definition ExecuteWithRetries ::
    "('c, 'w) runtime \<Rightarrow> float_scale \<Rightarrow> 'v \<Rightarrow> 'c Context \<Rightarrow> int \<Rightarrow> duration \<Rightarrow> duration
      \<Rightarrow> ('c, 'w, 'v) Task \<Rightarrow> 'w \<Rightarrow> ('v \<times> error option) \<times> 'w \<times> 'v event list" where
  "ExecuteWithRetries rt fscale zero ctx maxRetries delay timeout task w =
     (let executor = NewExecutor fscale
            [WithRetryStrategy
               (FixedDelay_RetryStrategy (NewFixedDelayStrategy (wrap64 (maxRetries + 1)) delay)),
             WithTimeoutStrategy (FixedTimeout_TimeoutStrategy (NewFixedTimeoutStrategy timeout))]
      in ExecuteSimple rt zero executor ctx task w)"

section \<open>Reading a run\<close>

text \<open>The attempt numbers of the task invocations of a run, and what they returned.\<close>

fun runs :: "'v event list \<Rightarrow> int list" where
  "runs [] = []"
| "runs (TaskRun a v e # evs) = a # runs evs"
| "runs (ev # evs) = runs evs"

fun run_errors :: "'v event list \<Rightarrow> error option list" where
  "run_errors [] = []"
| "run_errors (TaskRun a v e # evs) = e # run_errors evs"
| "run_errors (ev # evs) = run_errors evs"

text \<open>The calls of the timeout callback and of the task, in the order they happened.\<close>

datatype mark = TimeoutSet int | TaskStart int

fun marks :: "'v event list \<Rightarrow> mark list" where
  "marks [] = []"
| "marks (OnTimeoutCall a t # evs) = TimeoutSet a # marks evs"
| "marks (TaskRun a v e # evs) = TaskStart a # marks evs"
| "marks (ev # evs) = marks evs"

fun is_OnTimeoutCall :: "'v event \<Rightarrow> bool" where
  "is_OnTimeoutCall (OnTimeoutCall a t) = True"
| "is_OnTimeoutCall ev = False"

text \<open>A wait that the parent's cancellation ended.\<close>

fun is_cancelled_wait :: "'v event \<Rightarrow> bool" where
  "is_cancelled_wait (Wait a d c) = c"
| "is_cancelled_wait ev = False"

text \<open>
  Every call of \<^verbatim>\<open>ShouldRetry\<close> comes directly after a task invocation of the same
  attempt, is given the error that invocation returned, and that error is not nil.
\<close>

fun follows_failure :: "'v event list \<Rightarrow> bool" where
  "follows_failure [] = True"
| "follows_failure (TaskRun a v e # ShouldRetryCall b e' # evs) =
     (a = b \<and> e = e' \<and> e \<noteq> None \<and> follows_failure evs)"
| "follows_failure (ShouldRetryCall b e' # evs) = False"
| "follows_failure (ev # evs) = follows_failure evs"

text \<open>The events of the two optional callbacks in one pass of the loop.\<close>

definition onTimeout_events :: "'w Executor \<Rightarrow> int \<Rightarrow> 'v event list" where
  "onTimeout_events executor attempt =
     (case onTimeout executor of
        None \<Rightarrow> []
      | Some cb \<Rightarrow> [OnTimeoutCall attempt (GetTimeout (timeoutStrategy executor) attempt)])"

definition onRetry_events :: "'w Executor \<Rightarrow> int \<Rightarrow> error option \<Rightarrow> 'v event list" where
  "onRetry_events executor attempt err =
     (case onRetry executor of
        None \<Rightarrow> []
      | Some cb \<Rightarrow> [OnRetryCall attempt err (GetDelay (retryStrategy executor) attempt)])"

text \<open>
  The error a run ends with, read off its events: the parent's \<^verbatim>\<open>Err()\<close> when a wait
  was cancelled, otherwise what the last task invocation returned (nil when it
  succeeded, and nil when the task never ran).
\<close>

definition final_error :: "('c, 'w) runtime \<Rightarrow> 'c Context \<Rightarrow> 'w \<Rightarrow> 'v event list \<Rightarrow> error option" where
  "final_error rt ctx w' tr =
     (if list_ex is_cancelled_wait tr then ctx_Err rt ctx w'
      else if run_errors tr = [] then None
      else last (run_errors tr))"

text \<open>
  The invariant of a \<^verbatim>\<open>Result\<close>, read against the events of the run that returned it:
  with a nil error, the run ended with the task invocation numbered \<^verbatim>\<open>Attempt\<close>
  returning \<^verbatim>\<open>Value\<close> and a nil error; with an error set, the last task invocation
  of the run is the one numbered \<^verbatim>\<open>Attempt\<close>.
\<close>

definition Result_invariant :: "'v event list \<Rightarrow> 'v Result \<Rightarrow> bool" where
  "Result_invariant tr r =
     ((Error r = None \<longrightarrow> tr \<noteq> [] \<and> last tr = TaskRun (Attempt r) (Value r) None)
      \<and> (Error r \<noteq> None \<longrightarrow> runs tr \<noteq> [] \<and> last (runs tr) = Attempt r))"

section \<open>Fixtures of the package's tests\<close>

text \<open>
  The world of the tests is the counter \<^verbatim>\<open>attempts\<close> their tasks close over.
  \<open>test_flaky_task\<close> is the task of \<^verbatim>\<open>TestExecutorWithRetries\<close> (fails until its third
  call), \<open>test_failing_task\<close> that of \<^verbatim>\<open>TestExecutorMaxRetriesExceeded\<close>.
\<close>

definition test_flaky_task :: "(unit, nat, int) Task" where
  "test_flaky_task ctx attempts =
     (if Suc attempts < 3 then ((0, Some (ErrorString ''temporary failure'')), Suc attempts)
      else ((42, None), Suc attempts))"

definition test_failing_task :: "(unit, nat, int) Task" where
  "test_failing_task ctx attempts = ((0, Some (ErrorString ''persistent failure'')), Suc attempts)"

text \<open>
  \<^verbatim>\<open>context.Background()\<close> is never cancelled; the second runtime is a parent that is
  cancelled during the first wait.
\<close>

definition test_background :: "(unit, nat) runtime" where
  "test_background = \<lparr>select_done = (\<lambda>ctx delay w. (False, w)), ctx_Err = (\<lambda>ctx w. None)\<rparr>"

definition test_cancelled :: "(unit, nat) runtime" where
  "test_cancelled = \<lparr>select_done = (\<lambda>ctx delay w. (True, w)), ctx_Err = (\<lambda>ctx w. Some Canceled)\<rparr>"

definition test_executor :: "int \<Rightarrow> nat Executor" where
  "test_executor maxAttempts =
     \<lparr>retryStrategy = FixedDelay_RetryStrategy (NewFixedDelayStrategy maxAttempts (10 * Millisecond)),
      timeoutStrategy = FixedTimeout_TimeoutStrategy (NewFixedTimeoutStrategy (30 * Second)),
      onRetry = None,
      onTimeout = Some (\<lambda>attempt timeout w. w)\<rparr>"

definition test_store :: store where
  "test_store = [0 \<mapsto> NewExponentialBackoffStrategy 3 Second 2]"

section \<open>Zero attempts\<close>

lemma Execute_loop_exit:
  "maxAttempts < attempt \<Longrightarrow>
   Execute_loop rt executor ctx task maxAttempts attempt lastResult w
     = ((lastResult, Error lastResult), w, [])"
  by simp

text \<open>
  C1. When the retry strategy reports \<^verbatim>\<open>GetMaxAttempts() <= 0\<close>, \<^verbatim>\<open>Execute\<close> does not run
  the task (no event happens and the world is untouched) and returns the zero
  \<^verbatim>\<open>Result\<close> (zero value, nil error, attempt 0) with a nil error.
\<close>

theorem Execute_zero_attempts:
  "GetMaxAttempts (retryStrategy executor) \<le> 0 \<Longrightarrow>
   Execute rt zero executor ctx task w
     = ((\<lparr>Value = zero, Error = None, Attempt = 0\<rparr>, None), w, [])"
  by (simp add: Execute_def)

theorem Execute_zero_attempts_witness:
  "GetMaxAttempts (retryStrategy (test_executor 0)) \<le> 0 \<and>
   Execute test_background 7 (test_executor 0) (Ctx ()) test_flaky_task 0
     = ((\<lparr>Value = 7, Error = None, Attempt = 0\<rparr>, None), 0, [])"
proof -
  have h: "GetMaxAttempts (retryStrategy (test_executor 0)) \<le> 0"
    by (simp add: test_executor_def FixedDelay_RetryStrategy_def NewFixedDelayStrategy_def
        FixedDelay_GetMaxAttempts_def)
  from h Execute_zero_attempts [OF h] show ?thesis by simp
qed

section \<open>What the constructors accept\<close>

text \<open>
  C3, as the code has it. No constructor checks its \<^verbatim>\<open>maxAttempts\<close> argument:
  \<^verbatim>\<open>GetMaxAttempts()\<close> returns the argument as given, for the exponential, linear,
  fixed-delay and conditional strategies; the no-retry strategy returns 1.
\<close>

theorem GetMaxAttempts_is_argument:
  "GetMaxAttempts (ExponentialBackoff_RetryStrategy fscale
      (NewExponentialBackoffStrategy n baseDelay multiplier)) = n
   \<and> GetMaxAttempts (LinearBackoff_RetryStrategy (NewLinearBackoffStrategy n baseDelay increment)) = n
   \<and> GetMaxAttempts (FixedDelay_RetryStrategy (NewFixedDelayStrategy n delay)) = n
   \<and> GetMaxAttempts (ConditionalRetry_RetryStrategy
        (NewConditionalRetryStrategy n baseDelay shouldRetryFn getDelayFn)) = n
   \<and> GetMaxAttempts NewNoRetryStrategy = 1"
  by (simp add: ExponentialBackoff_RetryStrategy_def NewExponentialBackoffStrategy_def
      ExponentialBackoff_GetMaxAttempts_def LinearBackoff_RetryStrategy_def
      NewLinearBackoffStrategy_def LinearBackoff_GetMaxAttempts_def FixedDelay_RetryStrategy_def
      NewFixedDelayStrategy_def FixedDelay_GetMaxAttempts_def ConditionalRetry_RetryStrategy_def
      NewConditionalRetryStrategy_def ConditionalRetry_GetMaxAttempts_def NewNoRetryStrategy_def
      NoRetry_GetMaxAttempts_def)

text \<open>\<^verbatim>\<open>NewFixedDelayStrategy(0, 10*time.Millisecond).GetMaxAttempts()\<close> is 0, not at least 1.\<close>

theorem GetMaxAttempts_below_one:
  "\<not> 1 \<le> GetMaxAttempts (FixedDelay_RetryStrategy (NewFixedDelayStrategy 0 (10 * Millisecond)))"
  by (simp add: FixedDelay_RetryStrategy_def NewFixedDelayStrategy_def FixedDelay_GetMaxAttempts_def)

section \<open>WithMaxDelay\<close>

text \<open>
  C4, as the code has it. \<^verbatim>\<open>WithMaxDelay\<close> assigns through its receiver: after the call
  the receiver's own \<^verbatim>\<open>maxDelay\<close> is the argument, its other fields are as before, the
  returned pointer is the receiver, and no other object of the store has changed.
\<close>

theorem WithMaxDelay_updates_receiver:
  "h e = Some s \<Longrightarrow>
   \<exists>h'. WithMaxDelay e maxDelay h = Some (e, h')
      \<and> h' e = Some (s\<lparr>eb_maxDelay := maxDelay\<rparr>)
      \<and> (\<forall>q. q \<noteq> e \<longrightarrow> h' q = h q)"
  by (simp add: WithMaxDelay_def)

theorem WithMaxDelay_updates_receiver_witness:
  "test_store 0 = Some (NewExponentialBackoffStrategy 3 Second 2) \<and>
   (\<exists>h'. WithMaxDelay 0 (5 * Second) test_store = Some (0, h')
      \<and> h' 0 = Some ((NewExponentialBackoffStrategy 3 Second 2)\<lparr>eb_maxDelay := 5 * Second\<rparr>)
      \<and> h' 1 = test_store 1)"
proof -
  have h: "test_store 0 = Some (NewExponentialBackoffStrategy 3 Second 2)"
    by (simp add: test_store_def)
  from WithMaxDelay_updates_receiver [of test_store 0 _ "5 * Second", OF h] h
  show ?thesis by auto
qed

text \<open>
  A strategy built with the default cap of 30s has a cap of 5s after
  \<^verbatim>\<open>s.WithMaxDelay(5 * time.Second)\<close>: the receiver is not left unchanged.
\<close>

theorem WithMaxDelay_mutates_receiver:
  "WithMaxDelay 0 (5 * Second) test_store
     = Some (0, [0 \<mapsto> \<lparr>eb_maxAttempts = 3, eb_baseDelay = Second, eb_multiplier = 2,
                         eb_maxDelay = 5 * Second\<rparr>])
   \<and> map_option eb_maxDelay (test_store 0) = Some (30 * Second)
   \<and> 30 * Second \<noteq> 5 * Second"
  by (simp add: WithMaxDelay_def test_store_def NewExponentialBackoffStrategy_def Second_def)

section \<open>The convenience wrappers\<close>

text \<open>
  C7. \<^verbatim>\<open>ExecuteWithRetries(ctx, maxRetries, delay, timeout, task)\<close> returns what
  \<^verbatim>\<open>ExecuteSimple\<close> returns on the executor that holds
  \<^verbatim>\<open>FixedDelayStrategy(maxRetries+1, delay)\<close> (the sum in Go's \<^verbatim>\<open>int\<close>),
  \<^verbatim>\<open>FixedTimeoutStrategy(timeout)\<close> and no callback, with the same effects on the world; for 2 retries, 500ms and 3s that is
  the executor of fixed delay (3, 500ms) and fixed timeout 3s.
\<close>

theorem ExecuteWithRetries_is_ExecuteSimple:
  "ExecuteWithRetries rt fscale zero ctx maxRetries delay timeout task w
     = ExecuteSimple rt zero
         \<lparr>retryStrategy =
            FixedDelay_RetryStrategy (NewFixedDelayStrategy (wrap64 (maxRetries + 1)) delay),
          timeoutStrategy = FixedTimeout_TimeoutStrategy (NewFixedTimeoutStrategy timeout),
          onRetry = None, onTimeout = None\<rparr> ctx task w
   \<and> ExecuteWithRetries rt fscale zero ctx 2 (500 * Millisecond) (3 * Second) task w
     = ExecuteSimple rt zero
         \<lparr>retryStrategy = FixedDelay_RetryStrategy (NewFixedDelayStrategy 3 (500 * Millisecond)),
          timeoutStrategy = FixedTimeout_TimeoutStrategy (NewFixedTimeoutStrategy (3 * Second)),
          onRetry = None, onTimeout = None\<rparr> ctx task w"
  by (simp add: ExecuteWithRetries_def NewExecutor_def WithRetryStrategy_def
      WithTimeoutStrategy_def wrap64_def)

section \<open>One pass of the loop, and the loop\<close>

lemma Execute_body_cases [consumes 1, case_names success break cancelled waited last_attempt]:
  assumes body: "Execute_body rt executor ctx task maxAttempts attempt w = (fl, w', tr)"
  obtains
    v where "fl = Returned \<lparr>Value = v, Error = None, Attempt = attempt\<rparr> None"
      and "tr = onTimeout_events executor attempt @ [TaskRun attempt v None]"
  | v e where "e \<noteq> None"
      and "fl = Break \<lparr>Value = v, Error = e, Attempt = attempt\<rparr>"
      and "tr = onTimeout_events executor attempt @ [TaskRun attempt v e, ShouldRetryCall attempt e]"
  | v e w3 where "e \<noteq> None" and "attempt < maxAttempts"
      and "select_done rt ctx (GetDelay (retryStrategy executor) attempt) w3 = (True, w')"
      and "fl = Returned \<lparr>Value = v, Error = ctx_Err rt ctx w', Attempt = attempt\<rparr> (ctx_Err rt ctx w')"
      and "tr = onTimeout_events executor attempt
                @ [TaskRun attempt v e, ShouldRetryCall attempt e, GetDelayCall attempt]
                @ onRetry_events executor attempt e
                @ [Wait attempt (GetDelay (retryStrategy executor) attempt) True]"
  | v e where "e \<noteq> None" and "attempt < maxAttempts"
      and "fl = Continue \<lparr>Value = v, Error = e, Attempt = attempt\<rparr>"
      and "tr = onTimeout_events executor attempt
                @ [TaskRun attempt v e, ShouldRetryCall attempt e, GetDelayCall attempt]
                @ onRetry_events executor attempt e
                @ [Wait attempt (GetDelay (retryStrategy executor) attempt) False]"
  | v e where "e \<noteq> None" and "\<not> attempt < maxAttempts"
      and "fl = Continue \<lparr>Value = v, Error = e, Attempt = attempt\<rparr>"
      and "tr = onTimeout_events executor attempt @ [TaskRun attempt v e, ShouldRetryCall attempt e]"
proof -
  define timeout where "timeout = GetTimeout (timeoutStrategy executor) attempt"
  define w1 where "w1 = (case onTimeout executor of None \<Rightarrow> w | Some cb \<Rightarrow> cb attempt timeout w)"
  obtain v e w2 where task: "task (WithTimeout ctx timeout) w1 = ((v, e), w2)"
    by (metis surj_pair)
  define delay where "delay = GetDelay (retryStrategy executor) attempt"
  define w3 where "w3 = (case onRetry executor of None \<Rightarrow> w2 | Some cb \<Rightarrow> cb attempt e delay w2)"
  obtain c w4 where sel: "select_done rt ctx delay w3 = (c, w4)"
    by (metis surj_pair)
  have unfolded: "Execute_body rt executor ctx task maxAttempts attempt w =
     (if e = None then (Returned \<lparr>Value = v, Error = e, Attempt = attempt\<rparr> None, w2,
                         onTimeout_events executor attempt @ [TaskRun attempt v e])
      else if \<not> ShouldRetry (retryStrategy executor) attempt e
        then (Break \<lparr>Value = v, Error = e, Attempt = attempt\<rparr>, w2,
              onTimeout_events executor attempt @ [TaskRun attempt v e, ShouldRetryCall attempt e])
      else if attempt < maxAttempts then
        (if c then (Returned \<lparr>Value = v, Error = ctx_Err rt ctx w4, Attempt = attempt\<rparr>
                      (ctx_Err rt ctx w4), w4,
                    onTimeout_events executor attempt
                      @ [TaskRun attempt v e, ShouldRetryCall attempt e, GetDelayCall attempt]
                      @ onRetry_events executor attempt e @ [Wait attempt delay True])
         else (Continue \<lparr>Value = v, Error = e, Attempt = attempt\<rparr>, w4,
                    onTimeout_events executor attempt
                      @ [TaskRun attempt v e, ShouldRetryCall attempt e, GetDelayCall attempt]
                      @ onRetry_events executor attempt e @ [Wait attempt delay False]))
      else (Continue \<lparr>Value = v, Error = e, Attempt = attempt\<rparr>, w2,
            onTimeout_events executor attempt @ [TaskRun attempt v e, ShouldRetryCall attempt e]))"
    using task sel
    unfolding Execute_body_def onTimeout_events_def onRetry_events_def w1_def w3_def
      timeout_def delay_def Let_def
    by (simp split: option.splits)
  note out = unfolded [unfolded body]
  show thesis
  proof (cases "e = None")
    case True
    from out have "fl = Returned \<lparr>Value = v, Error = None, Attempt = attempt\<rparr> None"
      and "tr = onTimeout_events executor attempt @ [TaskRun attempt v None]"
      by (simp_all add: True)
    then show thesis by (rule that(1))
  next
    case nonnil: False
    show thesis
    proof (cases "ShouldRetry (retryStrategy executor) attempt e")
      case False
      from out have "fl = Break \<lparr>Value = v, Error = e, Attempt = attempt\<rparr>"
        and "tr = onTimeout_events executor attempt @ [TaskRun attempt v e, ShouldRetryCall attempt e]"
        by (simp_all add: nonnil False)
      with nonnil show thesis by (rule that(2))
    next
      case retry: True
      show thesis
      proof (cases "attempt < maxAttempts")
        case False
        from out have "fl = Continue \<lparr>Value = v, Error = e, Attempt = attempt\<rparr>"
          and "tr = onTimeout_events executor attempt @ [TaskRun attempt v e, ShouldRetryCall attempt e]"
          by (simp_all add: nonnil retry False)
        with nonnil False show thesis by (rule that(5))
      next
        case more: True
        show thesis
        proof (cases c)
          case True
          from out have "w' = w4"
            and "fl = Returned \<lparr>Value = v, Error = ctx_Err rt ctx w4, Attempt = attempt\<rparr>
                        (ctx_Err rt ctx w4)"
            and "tr = onTimeout_events executor attempt
                @ [TaskRun attempt v e, ShouldRetryCall attempt e, GetDelayCall attempt]
                @ onRetry_events executor attempt e
                @ [Wait attempt delay True]"
            by (simp_all add: nonnil retry more True)
          with nonnil more sel True show thesis
            unfolding delay_def by (intro that(3) [of e w3 v]) simp_all
        next
          case False
          from out have "fl = Continue \<lparr>Value = v, Error = e, Attempt = attempt\<rparr>"
            and "tr = onTimeout_events executor attempt
                @ [TaskRun attempt v e, ShouldRetryCall attempt e, GetDelayCall attempt]
                @ onRetry_events executor attempt e
                @ [Wait attempt delay False]"
            by (simp_all add: nonnil retry more False)
          with nonnil more show thesis
            unfolding delay_def by (intro that(4) [of e v]) simp_all
        qed
      qed
    qed
  qed
qed

lemma runs_append: "runs (xs @ ys) = runs xs @ runs ys"
  by (induction xs rule: runs.induct) simp_all

lemma run_errors_append: "run_errors (xs @ ys) = run_errors xs @ run_errors ys"
  by (induction xs rule: run_errors.induct) simp_all

lemma marks_append: "marks (xs @ ys) = marks xs @ marks ys"
  by (induction xs rule: marks.induct) simp_all

lemma follows_failure_append:
  "follows_failure xs \<Longrightarrow> follows_failure ys \<Longrightarrow> follows_failure (xs @ ys)"
proof (induction xs rule: follows_failure.induct)
  case 1
  then show ?case by simp
next
  case (2 a v e b e' evs)
  then show ?case by auto
next
  case (3 b e' evs)
  then show ?case by simp
qed (cases ys rule: follows_failure.cases; simp)+

lemma follows_failure_nonnil:
  "follows_failure tr \<Longrightarrow> ShouldRetryCall a e \<in> set tr \<Longrightarrow> e \<noteq> None"
  by (induction tr rule: follows_failure.induct) auto

lemma onTimeout_events_simps:
  "runs (onTimeout_events executor a) = []"
  "run_errors (onTimeout_events executor a) = []"
  "\<not> list_ex is_cancelled_wait (onTimeout_events executor a)"
  "onTimeout executor = Some cb \<Longrightarrow>
     marks (onTimeout_events executor a :: 'v event list) = [TimeoutSet a]"
  "onTimeout executor = Some cb \<Longrightarrow>
     filter is_OnTimeoutCall (onTimeout_events executor a :: 'v event list)
       = [OnTimeoutCall a (GetTimeout (timeoutStrategy executor) a)]"
  by (simp_all add: onTimeout_events_def split: option.splits)

lemma onRetry_events_simps:
  "runs (onRetry_events executor a e) = []"
  "run_errors (onRetry_events executor a e) = []"
  "marks (onRetry_events executor a e) = []"
  "\<not> list_ex is_cancelled_wait (onRetry_events executor a e)"
  "filter is_OnTimeoutCall (onRetry_events executor a e) = []"
  by (simp_all add: onRetry_events_def split: option.splits)

lemma Execute_loop_step:
  "attempt \<le> maxAttempts \<Longrightarrow>
   Execute_loop rt executor ctx task maxAttempts attempt lastResult w =
     (case Execute_body rt executor ctx task maxAttempts attempt w of
        (Returned r e, w', tr) \<Rightarrow> ((r, e), w', tr)
      | (Break r, w', tr) \<Rightarrow> ((r, Error r), w', tr)
      | (Continue r, w', tr) \<Rightarrow>
          (case Execute_loop rt executor ctx task maxAttempts (attempt + 1) r w' of
             (out, w'', tr') \<Rightarrow> (out, w'', tr @ tr')))"
  by simp

lemma Execute_loop_cases [consumes 1, case_names exit returned break continue]:
  assumes run: "Execute_loop rt executor ctx task maxAttempts attempt lastResult w = (out, w', tr)"
  obtains
    "maxAttempts < attempt" and "out = (lastResult, Error lastResult)" and "w' = w" and "tr = []"
  | r e where "attempt \<le> maxAttempts"
      and "Execute_body rt executor ctx task maxAttempts attempt w = (Returned r e, w', tr)"
      and "out = (r, e)"
  | r where "attempt \<le> maxAttempts"
      and "Execute_body rt executor ctx task maxAttempts attempt w = (Break r, w', tr)"
      and "out = (r, Error r)"
  | r w1 tr1 tr2 where "attempt \<le> maxAttempts"
      and "Execute_body rt executor ctx task maxAttempts attempt w = (Continue r, w1, tr1)"
      and "Execute_loop rt executor ctx task maxAttempts (attempt + 1) r w1 = (out, w', tr2)"
      and "tr = tr1 @ tr2"
proof (cases "attempt \<le> maxAttempts")
  case False
  with run that(1) show thesis by simp
next
  case True
  obtain fl w1 tr1 where body: "Execute_body rt executor ctx task maxAttempts attempt w = (fl, w1, tr1)"
    by (metis prod_cases3)
  show thesis
  proof (cases fl)
    case (Returned r e)
    with run body True that(2) [of r e] show thesis by (simp add: Execute_loop_step)
  next
    case (Break r)
    with run body True that(3) [of r] show thesis by (simp add: Execute_loop_step)
  next
    case (Continue r)
    obtain out2 w2 tr2 where
      rest: "Execute_loop rt executor ctx task maxAttempts (attempt + 1) r w1 = (out2, w2, tr2)"
      by (metis prod_cases3)
    with run body True Continue that(4) [of r w1 tr1 tr2] show thesis
      by (simp add: Execute_loop_step)
  qed
qed

lemma Execute_loop_induct [consumes 1, case_names exit returned break continue]:
  assumes run: "Execute_loop rt executor ctx task m a l w = (out, w', tr)"
    and exit: "\<And>a l w. m < a \<Longrightarrow> P a l w (l, Error l) w []"
    and returned: "\<And>a l w r e w' tr. a \<le> m \<Longrightarrow>
        Execute_body rt executor ctx task m a w = (Returned r e, w', tr) \<Longrightarrow> P a l w (r, e) w' tr"
    and break: "\<And>a l w r w' tr. a \<le> m \<Longrightarrow>
        Execute_body rt executor ctx task m a w = (Break r, w', tr) \<Longrightarrow> P a l w (r, Error r) w' tr"
    and continue: "\<And>a l w r w1 tr1 out w' tr2. a \<le> m \<Longrightarrow>
        Execute_body rt executor ctx task m a w = (Continue r, w1, tr1) \<Longrightarrow>
        Execute_loop rt executor ctx task m (a + 1) r w1 = (out, w', tr2) \<Longrightarrow>
        P (a + 1) r w1 out w' tr2 \<Longrightarrow> P a l w out w' (tr1 @ tr2)"
  shows "P a l w out w' tr"
  using run
proof (induction "nat (m + 1 - a)" arbitrary: a l w out w' tr rule: less_induct)
  case less
  from less.prems show ?case
  proof (cases rule: Execute_loop_cases)
    case exit
    then show ?thesis using assms(2) [of a l w] by simp
  next
    case (returned r e)
    then show ?thesis using assms(3) [of a w r e w' tr l] by simp
  next
    case (break r)
    then show ?thesis using assms(4) [of a w r w' tr l] by simp
  next
    case (continue r w1 tr1 tr2)
    have "nat (m + 1 - (a + 1)) < nat (m + 1 - a)"
      using continue(1) by simp
    from less.hyps [OF this continue(3)] have "P (a + 1) r w1 out w' tr2" .
    with continue show ?thesis using assms(5) [of a w r w1 tr1 out w' tr2 l] by simp
  qed
qed

lemma Execute_loop_error_field:
  assumes "Execute_loop rt executor ctx task m a l w = ((res, err), w', tr)"
  shows "err = Error res"
proof -
  have "snd (res, err) = Error (fst (res, err))"
    using assms
  proof (induction rule: Execute_loop_induct)
    case (returned a l w r e w' tr)
    from returned(2) show ?case by (cases rule: Execute_body_cases) simp_all
  qed simp_all
  then show ?thesis by simp
qed

lemma Execute_loop_runs:
  assumes "Execute_loop rt executor ctx task m a l w = ((res, err), w', tr)"
    and "Attempt l = a - 1"
  shows "runs tr = [a..Attempt res] \<and> a - 1 \<le> Attempt res"
proof -
  have "Attempt l = a - 1 \<longrightarrow>
        runs tr = [a..Attempt (fst (res, err))] \<and> a - 1 \<le> Attempt (fst (res, err))"
    using assms(1)
  proof (induction rule: Execute_loop_induct)
    case (exit a l w)
    then show ?case by simp
  next
    case (returned a l w r e w' tr)
    from returned(2) show ?case
      by (cases rule: Execute_body_cases)
         (simp_all add: runs_append onTimeout_events_simps onRetry_events_simps)
  next
    case (break a l w r w' tr)
    from break(2) show ?case
      by (cases rule: Execute_body_cases)
         (simp_all add: runs_append onTimeout_events_simps onRetry_events_simps)
  next
    case (continue a l w r w1 tr1 out w' tr2)
    from continue(2) have "runs tr1 = [a]" and "Attempt r = a"
      by (cases rule: Execute_body_cases;
          simp add: runs_append onTimeout_events_simps onRetry_events_simps)+
    with continue(4) show ?case
      by (simp add: runs_append upto_rec1 [of a])
  qed
  with assms(2) show ?thesis by simp
qed

lemma Execute_body_marks:
  assumes body: "Execute_body rt executor ctx task m a w = (fl, w', tr)"
    and cb: "onTimeout executor = Some cb"
  shows "marks tr = [TimeoutSet a, TaskStart a] \<and> length (filter is_OnTimeoutCall tr) = 1"
  using body
proof (cases rule: Execute_body_cases)
  case (success v)
  then show ?thesis
    by (simp add: marks_append onTimeout_events_simps(4,5) [OF cb])
next
  case (break v e)
  then show ?thesis
    by (simp add: marks_append onTimeout_events_simps(4,5) [OF cb])
next
  case (cancelled v e w3)
  then show ?thesis
    by (simp add: marks_append onTimeout_events_simps(4,5) [OF cb] onRetry_events_simps)
next
  case (waited v e)
  then show ?thesis
    by (simp add: marks_append onTimeout_events_simps(4,5) [OF cb] onRetry_events_simps)
next
  case (last_attempt v e)
  then show ?thesis
    by (simp add: marks_append onTimeout_events_simps(4,5) [OF cb])
qed

lemma Execute_body_Attempt:
  assumes body: "Execute_body rt executor ctx task m a w = (fl, w', tr)"
  shows "(case fl of Returned r e \<Rightarrow> Attempt r | Break r \<Rightarrow> Attempt r | Continue r \<Rightarrow> Attempt r) = a"
  using body by (cases rule: Execute_body_cases) simp_all

lemma Execute_loop_marks:
  assumes run: "Execute_loop rt executor ctx task m a l w = ((res, err), w', tr)"
    and start: "Attempt l = a - 1"
    and cb: "onTimeout executor = Some cb"
  shows "marks tr = concat (map (\<lambda>n. [TimeoutSet n, TaskStart n]) [a..Attempt res])
       \<and> int (length (filter is_OnTimeoutCall tr)) = Attempt res - (a - 1)"
proof -
  have "Attempt l = a - 1 \<longrightarrow>
        marks tr = concat (map (\<lambda>n. [TimeoutSet n, TaskStart n]) [a..Attempt (fst (res, err))])
        \<and> int (length (filter is_OnTimeoutCall tr)) = Attempt (fst (res, err)) - (a - 1)"
    using run
  proof (induction rule: Execute_loop_induct)
    case (exit a l w)
    then show ?case by simp
  next
    case (returned a l w r e w' tr)
    from Execute_body_marks [OF returned(2) cb] Execute_body_Attempt [OF returned(2)]
    show ?case by simp
  next
    case (break a l w r w' tr)
    from Execute_body_marks [OF break(2) cb] Execute_body_Attempt [OF break(2)]
    show ?case by simp
  next
    case (continue a l w r w1 tr1 out w' tr2)
    obtain res2 err2 where out: "out = (res2, err2)" by (cases out)
    have r: "Attempt r = a"
      using Execute_body_Attempt [OF continue(2)] by simp
    then have r': "Attempt r = a + 1 - 1" by simp
    have le: "a \<le> Attempt res2"
      using Execute_loop_runs [OF continue(3) [unfolded out] r'] by simp
    have m1: "marks tr1 = [TimeoutSet a, TaskStart a]"
      and c1: "length (filter is_OnTimeoutCall tr1) = 1"
      using Execute_body_marks [OF continue(2) cb] by simp_all
    have ih: "marks tr2 = concat (map (\<lambda>n. [TimeoutSet n, TaskStart n]) [a + 1..Attempt res2])"
      "int (length (filter is_OnTimeoutCall tr2)) = Attempt res2 - a"
      using continue(4) r by (simp_all add: out)
    have up: "[a..Attempt res2] = a # [a + 1..Attempt res2]"
      using le by (rule upto_rec1)
    show ?case
      by (simp add: out marks_append m1 c1 ih up)
  qed
  with start show ?thesis by simp
qed

lemma Execute_body_follows_failure:
  assumes body: "Execute_body rt executor ctx task m a w = (fl, w', tr :: 'v event list)"
  shows "follows_failure tr"
proof -
  have pre: "\<And>v e rest. follows_failure (onTimeout_events executor a @ TaskRun a v e # rest)
               = follows_failure (TaskRun a v e # rest)"
    by (simp add: onTimeout_events_def split: option.splits)
  have post: "\<And>e d c. follows_failure
               (onRetry_events executor a e @ [Wait a d c :: 'v event])"
    by (simp add: onRetry_events_def split: option.splits)
  from body show ?thesis
  proof (cases rule: Execute_body_cases)
    case (success v)
    then show ?thesis by (simp add: pre)
  next
    case (break v e)
    then show ?thesis by (simp add: pre)
  next
    case (cancelled v e w3)
    then show ?thesis by (simp add: pre post)
  next
    case (waited v e)
    then show ?thesis by (simp add: pre post)
  next
    case (last_attempt v e)
    then show ?thesis by (simp add: pre)
  qed
qed

lemma Execute_loop_follows_failure:
  assumes "Execute_loop rt executor ctx task m a l w = (out, w', tr)"
  shows "follows_failure tr"
  using assms
proof (induction rule: Execute_loop_induct)
  case (exit a l w)
  show ?case by simp
next
  case (returned a l w r e w' tr)
  from returned(2) show ?case by (rule Execute_body_follows_failure)
next
  case (break a l w r w' tr)
  from break(2) show ?case by (rule Execute_body_follows_failure)
next
  case (continue a l w r w1 tr1 out w' tr2)
  from continue(2) have "follows_failure tr1" by (rule Execute_body_follows_failure)
  then show ?case using continue(4) by (rule follows_failure_append)
qed

section \<open>Runs of the test fixtures\<close>

lemmas test_defs = test_executor_def test_background_def test_cancelled_def
  test_flaky_task_def test_failing_task_def
  FixedDelay_RetryStrategy_def NewFixedDelayStrategy_def FixedDelay_GetMaxAttempts_def
  FixedDelay_ShouldRetry_def FixedDelay_GetDelay_def
  FixedTimeout_TimeoutStrategy_def NewFixedTimeoutStrategy_def FixedTimeout_GetTimeout_def

lemma test_run_flaky:
  "Execute test_background 0 (test_executor 3) (Ctx ()) test_flaky_task 0 =
     ((\<lparr>Value = 42, Error = None, Attempt = 3\<rparr>, None), 3,
      [OnTimeoutCall 1 (30 * Second),
       TaskRun 1 0 (Some (ErrorString ''temporary failure'')),
       ShouldRetryCall 1 (Some (ErrorString ''temporary failure'')),
       GetDelayCall 1, Wait 1 (10 * Millisecond) False,
       OnTimeoutCall 2 (30 * Second),
       TaskRun 2 0 (Some (ErrorString ''temporary failure'')),
       ShouldRetryCall 2 (Some (ErrorString ''temporary failure'')),
       GetDelayCall 2, Wait 2 (10 * Millisecond) False,
       OnTimeoutCall 3 (30 * Second),
       TaskRun 3 42 None])"
  by (simp add: Execute_def Execute_body_def test_defs Let_def)

lemma test_run_exhausted:
  "Execute test_background 0 (test_executor 2) (Ctx ()) test_failing_task 0 =
     ((\<lparr>Value = 0, Error = Some (ErrorString ''persistent failure''), Attempt = 2\<rparr>,
       Some (ErrorString ''persistent failure'')), 2,
      [OnTimeoutCall 1 (30 * Second),
       TaskRun 1 0 (Some (ErrorString ''persistent failure'')),
       ShouldRetryCall 1 (Some (ErrorString ''persistent failure'')),
       GetDelayCall 1, Wait 1 (10 * Millisecond) False,
       OnTimeoutCall 2 (30 * Second),
       TaskRun 2 0 (Some (ErrorString ''persistent failure'')),
       ShouldRetryCall 2 (Some (ErrorString ''persistent failure''))])"
  by (simp add: Execute_def Execute_body_def test_defs Let_def)

lemma test_run_cancelled:
  "Execute test_cancelled 0 (test_executor 3) (Ctx ()) test_failing_task 0 =
     ((\<lparr>Value = 0, Error = Some Canceled, Attempt = 1\<rparr>, Some Canceled), 1,
      [OnTimeoutCall 1 (30 * Second),
       TaskRun 1 0 (Some (ErrorString ''persistent failure'')),
       ShouldRetryCall 1 (Some (ErrorString ''persistent failure'')),
       GetDelayCall 1, Wait 1 (10 * Millisecond) True])"
  by (simp add: Execute_def Execute_body_def test_defs Let_def)

section \<open>When the strategy and the callbacks are called\<close>

text \<open>
  C8. In every run of \<^verbatim>\<open>Execute\<close>, each call of \<^verbatim>\<open>ShouldRetry\<close> comes directly after
  the task invocation of the same attempt and is given the error that invocation
  returned, which is not nil; so no call of \<^verbatim>\<open>ShouldRetry\<close> receives a nil error.
\<close>

theorem ShouldRetry_only_after_failure:
  "Execute rt zero executor ctx task w = (out, w', tr) \<Longrightarrow>
   follows_failure tr \<and> (\<forall>a e. ShouldRetryCall a e \<in> set tr \<longrightarrow> e \<noteq> None)"
proof -
  assume "Execute rt zero executor ctx task w = (out, w', tr)"
  then have ff: "follows_failure tr"
    unfolding Execute_def Let_def by (rule Execute_loop_follows_failure)
  moreover have "\<forall>a e. ShouldRetryCall a e \<in> set tr \<longrightarrow> e \<noteq> None"
    using follows_failure_nonnil [OF ff] by blast
  ultimately show ?thesis by simp
qed

theorem ShouldRetry_only_after_failure_witness:
  "follows_failure (snd (snd (Execute test_background 0 (test_executor 2) (Ctx ()) test_failing_task 0)))
   \<and> ShouldRetryCall 2 (Some (ErrorString ''persistent failure''))
       \<in> set (snd (snd (Execute test_background 0 (test_executor 2) (Ctx ()) test_failing_task 0)))
   \<and> Some (ErrorString ''persistent failure'') \<noteq> None"
  using ShouldRetry_only_after_failure [OF test_run_exhausted]
  by (simp add: test_run_exhausted)

text \<open>
  C10. With an \<^verbatim>\<open>onTimeout\<close> callback configured, the calls of the callback and of the
  task alternate, callback first, for the attempts 1, 2, ... up to the \<^verbatim>\<open>Attempt\<close> field
  of the returned \<^verbatim>\<open>Result\<close>; the number of callback calls is that field.
\<close>

theorem onTimeout_once_per_attempt:
  "onTimeout executor = Some cb \<Longrightarrow>
   Execute rt zero executor ctx task w = ((res, err), w', tr) \<Longrightarrow>
   marks tr = concat (map (\<lambda>n. [TimeoutSet n, TaskStart n]) [1..Attempt res])
   \<and> int (length (filter is_OnTimeoutCall tr)) = Attempt res"
  unfolding Execute_def Let_def
  using Execute_loop_marks [of rt executor ctx task _ 1 _ w res err w' tr cb] by simp

theorem onTimeout_once_per_attempt_witness:
  "onTimeout (test_executor 3) = Some (\<lambda>attempt timeout w. w)
   \<and> marks (snd (snd (Execute test_background 0 (test_executor 3) (Ctx ()) test_flaky_task 0)))
       = [TimeoutSet 1, TaskStart 1, TimeoutSet 2, TaskStart 2, TimeoutSet 3, TaskStart 3]
   \<and> length (filter is_OnTimeoutCall
        (snd (snd (Execute test_background 0 (test_executor 3) (Ctx ()) test_flaky_task 0)))) = 3
   \<and> Attempt (fst (fst (Execute test_background 0 (test_executor 3) (Ctx ()) test_flaky_task 0))) = 3"
proof -
  have cb: "onTimeout (test_executor 3) = Some (\<lambda>attempt timeout w. w)"
    by (simp add: test_executor_def)
  from onTimeout_once_per_attempt [OF cb test_run_flaky] cb show ?thesis
    by (simp add: test_run_flaky)
qed

lemma Execute_body_final_error:
  assumes body: "Execute_body rt executor ctx task m a w = (fl, w', tr)"
  shows "run_errors tr \<noteq> [] \<and> (case fl of
           Returned r e \<Rightarrow> e = final_error rt ctx w' tr
         | Break r \<Rightarrow> Error r = final_error rt ctx w' tr
         | Continue r \<Rightarrow> \<not> list_ex is_cancelled_wait tr \<and> run_errors tr = [Error r])"
  using body
  by (cases rule: Execute_body_cases)
     (simp_all add: final_error_def run_errors_append onTimeout_events_simps onRetry_events_simps)

lemma Execute_loop_final_error:
  assumes run: "Execute_loop rt executor ctx task m a l w = ((res, err), w', tr)"
  shows "err = (if list_ex is_cancelled_wait tr then ctx_Err rt ctx w'
                else if run_errors tr = [] then Error l
                else last (run_errors tr))"
proof -
  have "snd (res, err) = (if list_ex is_cancelled_wait tr then ctx_Err rt ctx w'
                else if run_errors tr = [] then Error l
                else last (run_errors tr))"
    using run
  proof (induction rule: Execute_loop_induct)
    case (exit a l w)
    show ?case by simp
  next
    case (returned a l w r e w' tr)
    from Execute_body_final_error [OF returned(2)] show ?case
      by (simp add: final_error_def split: if_splits)
  next
    case (break a l w r w' tr)
    from Execute_body_final_error [OF break(2)] show ?case
      by (simp add: final_error_def split: if_splits)
  next
    case (continue a l w r w1 tr1 out w' tr2)
    from Execute_body_final_error [OF continue(2)]
    have "\<not> list_ex is_cancelled_wait tr1" and "run_errors tr1 = [Error r]"
      by simp_all
    with continue(4) show ?case
      by (simp add: run_errors_append)
  qed
  then show ?thesis by simp
qed

section \<open>The error of a run\<close>

text \<open>
  C9. The bare error \<^verbatim>\<open>Execute\<close> returns is the \<^verbatim>\<open>Error\<close> field of the \<^verbatim>\<open>Result\<close> it
  returns: nil after a successful attempt, the last attempt's error when the attempts
  are exhausted or the strategy stops, the parent's \<^verbatim>\<open>ctx.Err()\<close> after a cancelled wait.
  \<^verbatim>\<open>ExecuteSimple\<close> returns that same error.
\<close>

theorem bare_error_is_Result_Error:
  "case Execute rt zero executor ctx task w of
     ((res, err), w', tr) \<Rightarrow>
        err = Error res
      \<and> err = final_error rt ctx w' tr
      \<and> snd (fst (ExecuteSimple rt zero executor ctx task w)) = Error res"
proof -
  obtain res err w' tr where run: "Execute rt zero executor ctx task w = ((res, err), w', tr)"
    by (metis prod_cases3 surj_pair)
  then have loop: "Execute_loop rt executor ctx task (GetMaxAttempts (retryStrategy executor)) 1
      \<lparr>Value = zero, Error = None, Attempt = 0\<rparr> w = ((res, err), w', tr)"
    unfolding Execute_def Let_def .
  have e1: "err = Error res"
    using loop by (rule Execute_loop_error_field)
  have e2: "err = final_error rt ctx w' tr"
    using Execute_loop_final_error [OF loop] by (simp add: final_error_def)
  have e3: "snd (fst (ExecuteSimple rt zero executor ctx task w)) = Error res"
    using e1 by (simp add: ExecuteSimple_def run)
  from e1 e2 e3 show ?thesis by (simp add: run)
qed

lemma Execute_body_cancel:
  assumes body: "Execute_body rt executor ctx task m a w = (fl, w', tr)"
  shows "runs tr = [a] \<and>
         (if list_ex is_cancelled_wait tr
          then \<exists>pre d. tr = pre @ [Wait a d True] \<and> \<not> list_ex is_cancelled_wait pre
                 \<and> (case fl of
                       Returned r e \<Rightarrow> Attempt r = a \<and> Error r = ctx_Err rt ctx w'
                                        \<and> e = ctx_Err rt ctx w'
                     | Break r \<Rightarrow> False
                     | Continue r \<Rightarrow> False)
          else True)"
  using body
proof (cases rule: Execute_body_cases)
  case (cancelled v e w3)
  have "tr = (onTimeout_events executor a
                @ [TaskRun a v e, ShouldRetryCall a e, GetDelayCall a]
                @ onRetry_events executor a e)
             @ [Wait a (GetDelay (retryStrategy executor) a) True]"
    using cancelled(5) by simp
  moreover have "\<not> list_ex is_cancelled_wait (onTimeout_events executor a
                @ [TaskRun a v e, ShouldRetryCall a e, GetDelayCall a]
                @ onRetry_events executor a e)"
    by (simp add: onTimeout_events_simps onRetry_events_simps)
  ultimately have "\<exists>pre d. tr = pre @ [Wait a d True] \<and> \<not> list_ex is_cancelled_wait pre"
    by blast
  with cancelled show ?thesis
    by (simp add: runs_append onTimeout_events_simps onRetry_events_simps)
qed (simp_all add: runs_append onTimeout_events_simps onRetry_events_simps)

lemma Execute_loop_cancel:
  assumes run: "Execute_loop rt executor ctx task m a l w = ((res, err), w', tr)"
    and c: "list_ex is_cancelled_wait tr"
  shows "\<exists>pre d. tr = pre @ [Wait (Attempt res) d True] \<and> \<not> list_ex is_cancelled_wait pre
           \<and> Error res = ctx_Err rt ctx w' \<and> err = ctx_Err rt ctx w'
           \<and> runs tr \<noteq> [] \<and> last (runs tr) = Attempt res"
proof -
  have "list_ex is_cancelled_wait tr \<longrightarrow>
        (\<exists>pre d. tr = pre @ [Wait (Attempt (fst (res, err))) d True]
           \<and> \<not> list_ex is_cancelled_wait pre
           \<and> Error (fst (res, err)) = ctx_Err rt ctx w' \<and> snd (res, err) = ctx_Err rt ctx w'
           \<and> runs tr \<noteq> [] \<and> last (runs tr) = Attempt (fst (res, err)))"
    using run
  proof (induction rule: Execute_loop_induct)
    case (exit a l w)
    show ?case by simp
  next
    case (returned a l w r e w' tr)
    from Execute_body_cancel [OF returned(2)] show ?case
      by (auto split: if_splits)
  next
    case (break a l w r w' tr)
    from Execute_body_cancel [OF break(2)] show ?case
      by (auto split: if_splits)
  next
    case (continue a l w r w1 tr1 out w' tr2)
    from Execute_body_cancel [OF continue(2)]
    have no: "\<not> list_ex is_cancelled_wait tr1"
      by (auto split: if_splits)
    show ?case
    proof
      assume "list_ex is_cancelled_wait (tr1 @ tr2)"
      with no have "list_ex is_cancelled_wait tr2" by simp
      with continue(4) obtain pre d where
        tr2: "tr2 = pre @ [Wait (Attempt (fst out)) d True]"
        and pre: "\<not> list_ex is_cancelled_wait pre"
        and rest: "Error (fst out) = ctx_Err rt ctx w'" "snd out = ctx_Err rt ctx w'"
          "runs tr2 \<noteq> []" "last (runs tr2) = Attempt (fst out)"
        by blast
      have "tr1 @ tr2 = (tr1 @ pre) @ [Wait (Attempt (fst out)) d True]"
        using tr2 by simp
      moreover have "\<not> list_ex is_cancelled_wait (tr1 @ pre)"
        using no pre by simp
      moreover have "runs (tr1 @ tr2) \<noteq> []" "last (runs (tr1 @ tr2)) = Attempt (fst out)"
        using rest by (simp_all add: runs_append)
      ultimately show "\<exists>pre d. tr1 @ tr2 = pre @ [Wait (Attempt (fst out)) d True]
           \<and> \<not> list_ex is_cancelled_wait pre
           \<and> Error (fst out) = ctx_Err rt ctx w' \<and> snd out = ctx_Err rt ctx w'
           \<and> runs (tr1 @ tr2) \<noteq> [] \<and> last (runs (tr1 @ tr2)) = Attempt (fst out)"
        using rest(1,2) by blast
    qed
  qed
  with c show ?thesis by simp
qed

section \<open>Cancellation during the wait\<close>

text \<open>
  C6. When the wait after attempt \<open>a\<close> is ended by the parent's \<^verbatim>\<open>ctx.Done()\<close>, that wait
  is the last event of the run (no further attempt starts: attempt \<open>a\<close> is the last
  task invocation), and the \<^verbatim>\<open>Error\<close> of the returned \<^verbatim>\<open>Result\<close>, like the bare error,
  is the parent's \<^verbatim>\<open>ctx.Err()\<close>, in place of the error of attempt \<open>a\<close>.
\<close>

theorem cancelled_wait_ends_run:
  "Execute rt zero executor ctx task w = ((res, err), w', tr :: 'v event list) \<Longrightarrow>
   Wait a d True \<in> set tr \<Longrightarrow>
   (\<exists>pre. tr = pre @ [Wait a d True] \<and> \<not> list_ex is_cancelled_wait pre)
   \<and> last (runs tr) = a \<and> Attempt res = a
   \<and> Error res = ctx_Err rt ctx w' \<and> err = ctx_Err rt ctx w'"
proof -
  assume run: "Execute rt zero executor ctx task w = ((res, err), w', tr)"
    and mem: "Wait a d True \<in> set tr"
  from run have loop: "Execute_loop rt executor ctx task (GetMaxAttempts (retryStrategy executor)) 1
      \<lparr>Value = zero, Error = None, Attempt = 0\<rparr> w = ((res, err), w', tr)"
    unfolding Execute_def Let_def .
  have "is_cancelled_wait (Wait a d True :: 'v event)" by simp
  with mem have "list_ex is_cancelled_wait tr"
    unfolding list_ex_iff by (rule bexI [rotated])
  from Execute_loop_cancel [OF loop this] obtain pre d' where
    tr: "tr = pre @ [Wait (Attempt res) d' True]"
    and pre: "\<not> list_ex is_cancelled_wait pre"
    and rest: "Error res = ctx_Err rt ctx w'" "err = ctx_Err rt ctx w'"
      "last (runs tr) = Attempt res"
    by blast
  from mem tr pre have "Wait a d True = Wait (Attempt res) d' True"
    by (auto simp add: list_ex_iff)
  then have eq: "Attempt res = a" "d' = d" by simp_all
  with tr pre rest show ?thesis by auto
qed

theorem cancelled_wait_ends_run_witness:
  "Wait 1 (10 * Millisecond) True
     \<in> set (snd (snd (Execute test_cancelled 0 (test_executor 3) (Ctx ()) test_failing_task 0)))
   \<and> last (snd (snd (Execute test_cancelled 0 (test_executor 3) (Ctx ()) test_failing_task 0)))
       = Wait 1 (10 * Millisecond) True
   \<and> runs (snd (snd (Execute test_cancelled 0 (test_executor 3) (Ctx ()) test_failing_task 0))) = [1]
   \<and> fst (Execute test_cancelled 0 (test_executor 3) (Ctx ()) test_failing_task 0)
       = (\<lparr>Value = 0, Error = Some Canceled, Attempt = 1\<rparr>, Some Canceled)
   \<and> ctx_Err test_cancelled (Ctx ()) (1::nat) = Some Canceled"
proof -
  have mem: "Wait 1 (10 * Millisecond) True \<in> set
      [OnTimeoutCall 1 (30 * Second),
       TaskRun 1 0 (Some (ErrorString ''persistent failure'')),
       ShouldRetryCall 1 (Some (ErrorString ''persistent failure'')),
       GetDelayCall 1, Wait 1 (10 * Millisecond) True]"
    by simp
  have e: "ctx_Err test_cancelled (Ctx ()) (1::nat) = Some Canceled"
    by (simp add: test_cancelled_def)
  from cancelled_wait_ends_run [OF test_run_cancelled mem] e show ?thesis
    by (simp add: test_run_cancelled)
qed

lemma Execute_body_success:
  assumes body: "Execute_body rt executor ctx task m a w = (fl, w', tr)"
    and contract: "context_contract rt"
  shows "tr \<noteq> [] \<and> (case fl of
           Returned r e \<Rightarrow> Error r = None \<longrightarrow> last tr = TaskRun (Attempt r) (Value r) None
         | Break r \<Rightarrow> Error r \<noteq> None
         | Continue r \<Rightarrow> Error r \<noteq> None)"
  using body
proof (cases rule: Execute_body_cases)
  case (cancelled v e w3)
  from contract cancelled(3) have "ctx_Err rt ctx w' \<noteq> None"
    unfolding context_contract_def by blast
  with cancelled show ?thesis by simp
qed simp_all

lemma Execute_loop_success:
  assumes run: "Execute_loop rt executor ctx task m a l w = ((res, err), w', tr)"
    and contract: "context_contract rt"
    and nil: "Error res = None"
  shows "(tr = [] \<and> res = l) \<or> (tr \<noteq> [] \<and> last tr = TaskRun (Attempt res) (Value res) None)"
proof -
  have "Error (fst (res, err)) = None \<longrightarrow>
        (tr = [] \<and> fst (res, err) = l)
        \<or> (tr \<noteq> [] \<and> last tr = TaskRun (Attempt (fst (res, err))) (Value (fst (res, err))) None)"
    using run
  proof (induction rule: Execute_loop_induct)
    case (exit a l w)
    show ?case by simp
  next
    case (returned a l w r e w' tr)
    from Execute_body_success [OF returned(2) contract] show ?case by auto
  next
    case (break a l w r w' tr)
    from Execute_body_success [OF break(2) contract] show ?case by auto
  next
    case (continue a l w r w1 tr1 out w' tr2)
    from Execute_body_success [OF continue(2) contract]
    have "Error r \<noteq> None" by simp
    with continue(4) show ?case by auto
  qed
  with nil show ?thesis by simp
qed

lemma Execute_loop_Attempt_ge:
  assumes run: "Execute_loop rt executor ctx task m a l w = ((res, err), w', tr)"
    and le: "a \<le> m"
  shows "a \<le> Attempt res"
  using run
proof (cases rule: Execute_loop_cases)
  case exit
  with le show ?thesis by simp
next
  case (returned r e)
  with Execute_body_Attempt [OF returned(2)] show ?thesis by simp
next
  case (break r)
  with Execute_body_Attempt [OF break(2)] show ?thesis by simp
next
  case (continue r w1 tr1 tr2)
  from Execute_body_Attempt [OF continue(2)] have "Attempt r = a + 1 - 1" by simp
  from Execute_loop_runs [OF continue(3) this] show ?thesis by simp
qed

lemma last_upto_int: "i \<le> j \<Longrightarrow> last [i..j] = j"
  by (simp add: upto_rec2)

section \<open>The invariant of the Result\<close>

text \<open>
  C2, as the code has it. When the retry strategy allows at least one attempt and the
  parent context keeps the contract of \<^verbatim>\<open>context.Context\<close>, the returned \<^verbatim>\<open>Result\<close>
  satisfies the invariant: with a nil error its value is what the task returned,
  with a nil error, at the attempt numbered \<^verbatim>\<open>Attempt\<close>, which ended the run; with an
  error set, \<^verbatim>\<open>Attempt\<close> is the number of the last task invocation. The attempts that
  ran are 1, 2, ..., \<^verbatim>\<open>Attempt\<close>.
\<close>

theorem Result_invariant_holds:
  "1 \<le> GetMaxAttempts (retryStrategy executor) \<Longrightarrow>
   context_contract rt \<Longrightarrow>
   Execute rt zero executor ctx task w = ((res, err), w', tr) \<Longrightarrow>
   Result_invariant tr res \<and> runs tr = [1..Attempt res] \<and> 1 \<le> Attempt res"
proof -
  assume le: "1 \<le> GetMaxAttempts (retryStrategy executor)"
    and contract: "context_contract rt"
    and run: "Execute rt zero executor ctx task w = ((res, err), w', tr)"
  from run have loop: "Execute_loop rt executor ctx task (GetMaxAttempts (retryStrategy executor)) 1
      \<lparr>Value = zero, Error = None, Attempt = 0\<rparr> w = ((res, err), w', tr)"
    unfolding Execute_def Let_def .
  have ge: "1 \<le> Attempt res"
    using loop le by (rule Execute_loop_Attempt_ge)
  have runs: "runs tr = [1..Attempt res]"
    using Execute_loop_runs [OF loop] by simp
  have lastrun: "runs tr \<noteq> []" "last (runs tr) = Attempt res"
    using ge by (simp_all add: runs last_upto_int)
  have "Error res = None \<longrightarrow> tr \<noteq> [] \<and> last tr = TaskRun (Attempt res) (Value res) None"
  proof
    assume nil: "Error res = None"
    from Execute_loop_success [OF loop contract nil] ge
    show "tr \<noteq> [] \<and> last tr = TaskRun (Attempt res) (Value res) None"
      by auto
  qed
  with lastrun runs ge show ?thesis
    by (simp add: Result_invariant_def)
qed

theorem Result_invariant_holds_witness:
  "1 \<le> GetMaxAttempts (retryStrategy (test_executor 3))
   \<and> context_contract test_background
   \<and> Result_invariant
       (snd (snd (Execute test_background 0 (test_executor 3) (Ctx ()) test_flaky_task 0)))
       \<lparr>Value = 42, Error = None, Attempt = 3\<rparr>
   \<and> runs (snd (snd (Execute test_background 0 (test_executor 3) (Ctx ()) test_flaky_task 0)))
       = [1, 2, 3]
   \<and> context_contract test_cancelled
   \<and> Result_invariant
       (snd (snd (Execute test_cancelled 0 (test_executor 3) (Ctx ()) test_failing_task 0)))
       \<lparr>Value = 0, Error = Some Canceled, Attempt = 1\<rparr>"
proof -
  have le: "1 \<le> GetMaxAttempts (retryStrategy (test_executor 3))"
    by (simp add: test_defs)
  have c1: "context_contract test_background"
    by (simp add: context_contract_def test_background_def)
  have c2: "context_contract test_cancelled"
    by (simp add: context_contract_def test_cancelled_def)
  have u: "[1..3] = [1, 2, (3::int)]"
    by (simp add: upto_rec1)
  from Result_invariant_holds [OF le c1 test_run_flaky]
    Result_invariant_holds [OF le c2 test_run_cancelled] le c1 c2 u
  show ?thesis
    by (simp add: test_run_flaky test_run_cancelled)
qed

text \<open>
  With \<^verbatim>\<open>NewFixedDelayStrategy(0, 10*time.Millisecond)\<close> the task never runs, yet the
  \<^verbatim>\<open>Result\<close> has a nil error: its value is no output of the task and its attempt, 0,
  is no attempt that succeeded.
\<close>

theorem Result_invariant_fails_without_attempts:
  "Execute test_background 7 (test_executor 0) (Ctx ()) test_flaky_task 0
     = ((\<lparr>Value = 7, Error = None, Attempt = 0\<rparr>, None), 0, [])
   \<and> \<not> Result_invariant [] \<lparr>Value = 7 :: int, Error = None, Attempt = 0\<rparr>"
  by (simp add: Execute_def test_defs Result_invariant_def)

section \<open>Exponential backoff\<close>

text \<open>
  What this development can say of the exponential strategy: when it retries, and that
  its delay is the float expression of the Go runtime, capped at \<^verbatim>\<open>maxDelay\<close>. The
  value of the float expression itself is outside the model.
\<close>

lemma ExponentialBackoff_ShouldRetry_iff:
  "ShouldRetry (ExponentialBackoff_RetryStrategy fscale e) attempt err
     = (attempt < eb_maxAttempts e \<and> err \<noteq> None)"
  by (simp add: ExponentialBackoff_RetryStrategy_def ExponentialBackoff_ShouldRetry_def)

lemma ExponentialBackoff_GetDelay_capped:
  "GetDelay (ExponentialBackoff_RetryStrategy fscale e) attempt
     = min (fscale (eb_baseDelay e) (eb_multiplier e) (wrap64 (attempt - 1))) (eb_maxDelay e)"
  by (simp add: ExponentialBackoff_RetryStrategy_def ExponentialBackoff_GetDelay_def Let_def min_def)

end
